theory Spec2Isabelle
  imports Complex_Main "HOL-Library.Sublist" "HOL-Library.Log_Nat"
begin

section \<open>Data model\<close>

text \<open>
  The type declarations (\<^verbatim>\<open>src/types\<close>) are read off the way the components use
  them: every localized string has the two entries \<^verbatim>\<open>es\<close> and \<^verbatim>\<open>pt\<close>, a question
  carries its id, the id of its category, a localized prompt and a list of options, and
  a submission (\<^verbatim>\<open>FormDataType\<close>) carries three names, its creation timestamp
  \<^verbatim>\<open>date\<close> (a string) and two \<^verbatim>\<open>Record<number, _>\<close> objects. Numbers are the
  integers the data model speaks of; an object indexed by number is a partial map, the
  absent key reading \<^verbatim>\<open>undefined\<close>.
\<close>

datatype language = ES | PT

record localized =
  es :: string
  pt :: string

definition localize :: "localized \<Rightarrow> language \<Rightarrow> string" where
  \<comment> \<open>\<^verbatim>\<open>x[language]\<close>\<close>
  "localize t lang = (case lang of ES \<Rightarrow> es t | PT \<Rightarrow> pt t)"

record Category =
  cat_id :: int
  cat_name :: localized

record AnswerOption =
  opt_value :: int
  opt_text :: localized

record Question =
  q_id :: int
  categoryId :: int
  q_text :: localized
  options :: "AnswerOption list"

record FormDataType =
  providerName :: string
  financialEntityName :: string
  userName :: string
  date :: string
  answers :: "int \<rightharpoonup> int"
  observations :: "int \<rightharpoonup> string"

text \<open>A draft has the shape of a submission; the store only reads its \<^verbatim>\<open>date\<close>.\<close>

type_synonym Draft = FormDataType


section \<open>The application state and its handlers (\<^verbatim>\<open>App\<close>)\<close>

datatype view = HomeView | FormView | ReportView | SavedFormsView | DraftsView

text \<open>
  The eight \<^verbatim>\<open>useState\<close> cells of \<^verbatim>\<open>App\<close>. Everything the component tree renders is
  a function of this record.
\<close>

record app_state =
  currentView :: view
  appLanguage :: language
  formData :: "FormDataType list"
  drafts :: "Draft list"
  appUserName :: string
  appProviderName :: string
  appFinancialEntityName :: string
  currentDraft :: "Draft option"

definition initial_state :: app_state where
  "initial_state =
     \<lparr>currentView = HomeView, appLanguage = ES, formData = [], drafts = [],
      appUserName = [], appProviderName = [], appFinancialEntityName = [],
      currentDraft = None\<rparr>"

subsection \<open>The submission and draft store\<close>

definition handleUpdateForm :: "app_state \<Rightarrow> FormDataType \<Rightarrow> app_state" where
  \<comment> \<open>\<^verbatim>\<open>setFormData(formData.map(form => form.date === updatedForm.date ? updatedForm : form))\<close>\<close>
  "handleUpdateForm st updatedForm =
     st\<lparr>formData :=
          map (\<lambda>form. if date form = date updatedForm then updatedForm else form)
              (formData st)\<rparr>"

definition handleDeleteForm :: "app_state \<Rightarrow> string \<Rightarrow> app_state" where
  \<comment> \<open>\<^verbatim>\<open>setFormData(formData.filter(form => form.date !== dateToDelete))\<close>\<close>
  "handleDeleteForm st dateToDelete =
     st\<lparr>formData := filter (\<lambda>form. date form \<noteq> dateToDelete) (formData st)\<rparr>"

definition handleSaveDraft :: "app_state \<Rightarrow> Draft \<Rightarrow> app_state" where
  "handleSaveDraft st draft = st\<lparr>drafts := drafts st @ [draft], currentView := DraftsView\<rparr>"

definition handleContinueDraft :: "app_state \<Rightarrow> Draft \<Rightarrow> app_state" where
  "handleContinueDraft st draft = st\<lparr>currentDraft := Some draft, currentView := FormView\<rparr>"

definition handleDeleteDraft :: "app_state \<Rightarrow> string \<Rightarrow> app_state" where
  "handleDeleteDraft st d = st\<lparr>drafts := filter (\<lambda>draft. date draft \<noteq> d) (drafts st)\<rparr>"

definition handleStartQuestionnaire :: "app_state \<Rightarrow> string \<Rightarrow> string \<Rightarrow> string \<Rightarrow> app_state" where
  "handleStartQuestionnaire st provider entity user =
     st\<lparr>appProviderName := provider, appFinancialEntityName := entity,
        appUserName := user, currentView := FormView\<rparr>"

subsection \<open>Submitting a form\<close>

text \<open>
  What \<^verbatim>\<open>generatePDF\<close> of \<^verbatim>\<open>App\<close> writes into the document: the text and its
  position, in the order of the calls. The rendering of a date
  (\<^verbatim>\<open>new Date(d).toLocaleDateString()\<close>) belongs to the browser and is a parameter.
\<close>

type_synonym pdf_doc = "(string \<times> nat \<times> nat) list"

definition generatePDF_app :: "(string \<Rightarrow> string) \<Rightarrow> FormDataType \<Rightarrow> pdf_doc" where
  "generatePDF_app toLocaleDateString data =
     [(''Informe DORA'', 105, 15),
      (''Proveedor: '' @ providerName data, 20, 30),
      (''Entidad Financiera: '' @ financialEntityName data, 20, 40),
      (''Usuario: '' @ userName data, 20, 50),
      (''Fecha: '' @ toLocaleDateString (date data), 20, 60)]"

text \<open>
  The two calls of \<^verbatim>\<open>axios.post\<close>: the text message, then the document upload. The
  endpoint answers each request by resolving or by rejecting with an error; that answer
  is the parameter \<open>post\<close> of the handler.
\<close>

datatype request =
    SendMessage string string
  | SendDocument string pdf_doc string

datatype net_error = NetworkError string

datatype console_entry =
    LogDelivered
  | ErrorDelivery net_error

definition TELEGRAM_CHAT_ID :: string where
  "TELEGRAM_CHAT_ID = ''763968348''"

definition summary_message :: "(string \<Rightarrow> string) \<Rightarrow> FormDataType \<Rightarrow> string" where
  "summary_message toLocaleDateString data =
     ''Nuevo informe DORA:'' @ [CHR 0x0A] @
     ''Proveedor: '' @ providerName data @ [CHR 0x0A] @
     ''Entidad Financiera: '' @ financialEntityName data @ [CHR 0x0A] @
     ''Usuario: '' @ userName data @ [CHR 0x0A] @
     ''Fecha: '' @ toLocaleDateString (date data)"

definition deliver ::
  "(request \<Rightarrow> net_error + unit) \<Rightarrow> (string \<Rightarrow> string) \<Rightarrow> FormDataType \<Rightarrow> pdf_doc
     \<Rightarrow> net_error + unit" where
  \<comment> \<open>the body of the \<^verbatim>\<open>try\<close> block up to the second \<^verbatim>\<open>await\<close>: a rejected
      \<^verbatim>\<open>await\<close> leaves the block at once\<close>
  "deliver post toLocaleDateString data pdfArrayBuffer =
     (case post (SendMessage TELEGRAM_CHAT_ID (summary_message toLocaleDateString data)) of
        Inl err \<Rightarrow> Inl err
      | Inr _ \<Rightarrow>
          post (SendDocument TELEGRAM_CHAT_ID pdfArrayBuffer ''informe_dora.pdf''))"

text \<open>
  The handler returns the new state of \<^verbatim>\<open>App\<close> and what it wrote to the console.
  \<^verbatim>\<open>setFormData\<close> runs first, outside the \<^verbatim>\<open>try\<close>; on success the handler logs
  and switches to the report view; the \<^verbatim>\<open>catch\<close> branch calls \<^verbatim>\<open>console.error\<close>
  and nothing else.
\<close>

definition handleFormSubmit ::
  "(request \<Rightarrow> net_error + unit) \<Rightarrow> (string \<Rightarrow> string) \<Rightarrow> app_state \<Rightarrow> FormDataType
     \<Rightarrow> app_state \<times> console_entry list" where
  "handleFormSubmit post toLocaleDateString st data =
     (let st1 = st\<lparr>formData := formData st @ [data]\<rparr>;
          pdfArrayBuffer = generatePDF_app toLocaleDateString data
      in case deliver post toLocaleDateString data pdfArrayBuffer of
           Inr _ \<Rightarrow> (st1\<lparr>currentView := ReportView\<rparr>, [LogDelivered])
         | Inl error \<Rightarrow> (st1, [ErrorDelivery error]))"


section \<open>JavaScript values the components compute with\<close>

text \<open>
  A JavaScript number is an IEEE-754 double: a finite value, \<^verbatim>\<open>NaN\<close> or an infinity.
  \<open>Finite r\<close> stands for the double of value \<open>r\<close>; every operation below returns a
  \<open>Finite\<close> through \<open>round_double\<close> only. The numbers of this program are sums of
  integers, starting from 0, and quotients of such a sum by the length of an array, so
  the one zero of the model is the positive zero.
\<close>

datatype jsnum = Finite real | NaN | PosInfinity | NegInfinity

subsection \<open>Rounding to the nearest double, ties to even\<close>

definition pow2 :: "int \<Rightarrow> real" where
  "pow2 e = (if 0 \<le> e then 2 ^ nat e else 1 / 2 ^ nat (- e))"

definition binade :: "real \<Rightarrow> int" where
  \<comment> \<open>for \<open>0 < x\<close>, the \<open>e\<close> with \<open>2\<^sup>e \<le> x < 2\<^bsup>e+1\<^esup>\<close>\<close>
  "binade x = (if 1 \<le> x then bitlen \<lfloor>x\<rfloor> - 1 else - bitlen (\<lceil>1 / x\<rceil> - 1))"

definition round_half_even :: "real \<Rightarrow> int" where
  "round_half_even x =
     (let f = \<lfloor>x\<rfloor>; d = x - of_int f
      in if d < 1 / 2 then f else if 1 / 2 < d then f + 1 else if even f then f else f + 1)"

definition quantum :: "real \<Rightarrow> int" where
  \<comment> \<open>the exponent of the last of the 53 bits; subnormal numbers share \<open>- 1074\<close>\<close>
  "quantum a = max (binade a - 52) (- 1074)"

definition round_magnitude :: "real \<Rightarrow> real" where
  "round_magnitude a = of_int (round_half_even (a / pow2 (quantum a))) * pow2 (quantum a)"

definition round_double :: "real \<Rightarrow> jsnum" where
  "round_double x =
     (if x = 0 then Finite 0
      else if 2 ^ 1024 \<le> round_magnitude \<bar>x\<bar>
           then (if 0 < x then PosInfinity else NegInfinity)
           else Finite (if 0 < x then round_magnitude \<bar>x\<bar> else - round_magnitude \<bar>x\<bar>))"

subsection \<open>Arithmetic\<close>

definition js_number :: "int \<Rightarrow> jsnum" where
  \<comment> \<open>an integer of the model as a number: itself up to \<open>2\<^sup>5\<^sup>3\<close>, the nearest double beyond\<close>
  "js_number v = round_double (of_int v)"

fun js_add :: "jsnum \<Rightarrow> jsnum \<Rightarrow> jsnum" where
  "js_add (Finite a) (Finite b) = round_double (a + b)"
| "js_add NaN y = NaN"
| "js_add x NaN = NaN"
| "js_add PosInfinity NegInfinity = NaN"
| "js_add NegInfinity PosInfinity = NaN"
| "js_add PosInfinity y = PosInfinity"
| "js_add x PosInfinity = PosInfinity"
| "js_add NegInfinity y = NegInfinity"
| "js_add x NegInfinity = NegInfinity"

text \<open>
  Division of a number by the length of an array. It never raises: a zero divisor
  gives \<^verbatim>\<open>NaN\<close> for a zero dividend and an infinity otherwise. (In HOL \<open>x / 0 = 0\<close>,
  so the case is written out.) A length is below \<open>2\<^sup>3\<^sup>2\<close> and is its own double.
\<close>

definition js_div :: "jsnum \<Rightarrow> nat \<Rightarrow> jsnum" where
  "js_div s n =
     (case s of
        Finite a \<Rightarrow>
          if n = 0 then (if a = 0 then NaN else if 0 < a then PosInfinity else NegInfinity)
          else round_double (a / real n)
      | NaN \<Rightarrow> NaN
      | PosInfinity \<Rightarrow> PosInfinity
      | NegInfinity \<Rightarrow> NegInfinity)"

definition or_zero :: "int option \<Rightarrow> int" where
  \<comment> \<open>\<^verbatim>\<open>v || 0\<close>: \<^verbatim>\<open>undefined\<close> and \<^verbatim>\<open>0\<close> are falsy\<close>
  "or_zero v = (case v of None \<Rightarrow> 0 | Some x \<Rightarrow> if x = 0 then 0 else x)"

definition or_empty :: "string option \<Rightarrow> string" where
  \<comment> \<open>\<^verbatim>\<open>v || ''\<close>: \<^verbatim>\<open>undefined\<close> and the empty string are falsy\<close>
  "or_empty v = (case v of None \<Rightarrow> [] | Some x \<Rightarrow> if x = [] then [] else x)"

subsection \<open>\<^verbatim>\<open>String.prototype.replace\<close> with a string pattern\<close>

text \<open>
  With a string as pattern, \<^verbatim>\<open>replace\<close> looks for the first occurrence only, and the
  replacement string is a template: \<^verbatim>\<open>$$\<close> stands for a dollar sign, \<^verbatim>\<open>$&\<close> for the
  matched text, \<^verbatim>\<open>$`\<close> and \<^verbatim>\<open>$'\<close> for the text before and after the match. There
  are no capture groups, so every other \<^verbatim>\<open>$\<close> stands for itself. Strings are
  sequences of code units here as there; the placeholder tokens are ASCII.
\<close>

fun first_index :: "string \<Rightarrow> string \<Rightarrow> nat option" where
  "first_index pat [] = (if pat = [] then Some 0 else None)"
| "first_index pat (c # cs) =
     (if prefix pat (c # cs) then Some 0 else map_option Suc (first_index pat cs))"

definition includes_str :: "string \<Rightarrow> string \<Rightarrow> bool" where
  \<comment> \<open>\<^verbatim>\<open>s.includes(pat)\<close>\<close>
  "includes_str s pat = (first_index pat s \<noteq> None)"

fun getSubstitution :: "string \<Rightarrow> string \<Rightarrow> string \<Rightarrow> string \<Rightarrow> string" where
  "getSubstitution matched before after [] = []"
| "getSubstitution matched before after [c] = [c]"
| "getSubstitution matched before after (c # d # rest) =
     (if c = CHR ''$'' then
        (if d = CHR ''$'' then CHR ''$'' # getSubstitution matched before after rest
         else if d = CHR ''&'' then matched @ getSubstitution matched before after rest
         else if d = CHR 0x60 then before @ getSubstitution matched before after rest
         else if d = CHR 0x27 then after @ getSubstitution matched before after rest
         else c # getSubstitution matched before after (d # rest))
      else c # getSubstitution matched before after (d # rest))"

definition js_replace :: "string \<Rightarrow> string \<Rightarrow> string \<Rightarrow> string" where
  "js_replace s pat replacement =
     (case first_index pat s of
        None \<Rightarrow> s
      | Some i \<Rightarrow>
          take i s
          @ getSubstitution pat (take i s) (drop (i + length pat) s) replacement
          @ drop (i + length pat) s)"


section \<open>The report and the saved-forms view\<close>

subsection \<open>Chart data (\<^verbatim>\<open>generateChartData\<close>, the same text in both components)\<close>

definition categoryScore :: "Question list \<Rightarrow> FormDataType \<Rightarrow> Category \<Rightarrow> jsnum" where
  "categoryScore questions selectedData category =
     (let categoryQuestions = filter (\<lambda>q. categoryId q = cat_id category) questions;
          categoryScores = map (\<lambda>q. or_zero (answers selectedData (q_id q))) categoryQuestions
      in js_div (foldl (\<lambda>sum score. js_add sum (js_number score)) (Finite 0) categoryScores)
           (length categoryScores))"

record chart_data =
  labels :: "string list"
  scores :: "jsnum list"

text \<open>The label of the data set and its colours are constants and are left out.\<close>

definition generateChartData ::
  "Question list \<Rightarrow> Category list \<Rightarrow> language \<Rightarrow> FormDataType \<Rightarrow> chart_data" where
  "generateChartData questions categories lang selectedData =
     \<lparr>labels = map (\<lambda>category. localize (cat_name category) lang) categories,
      scores = map (categoryScore questions selectedData) categories\<rparr>"

subsection \<open>Table rows of the exported document (\<^verbatim>\<open>generatePDF\<close>)\<close>

definition PROVIDER_TOKEN :: string where
  "PROVIDER_TOKEN = ''{providerName}''"

definition ENTITY_TOKEN :: string where
  "ENTITY_TOKEN = ''{financialEntityName}''"

definition promptCell :: "language \<Rightarrow> FormDataType \<Rightarrow> Question \<Rightarrow> string" where
  "promptCell lang selectedForm q =
     js_replace
       (js_replace (localize (q_text q) lang) PROVIDER_TOKEN (providerName selectedForm))
       ENTITY_TOKEN (financialEntityName selectedForm)"

definition answerCell :: "language \<Rightarrow> FormDataType \<Rightarrow> Question \<Rightarrow> string" where
  \<comment> \<open>\<^verbatim>\<open>q.options.find((opt) => opt.value === selectedForm.answers[q.id])?.text[language] || ''\<close>;
      no option value is strictly equal to \<^verbatim>\<open>undefined\<close>\<close>
  "answerCell lang selectedForm q =
     or_empty
       (map_option (\<lambda>opt. localize (opt_text opt) lang)
          (find (\<lambda>opt. Some (opt_value opt) = answers selectedForm (q_id q)) (options q)))"

definition observationCell :: "FormDataType \<Rightarrow> Question \<Rightarrow> string" where
  "observationCell selectedForm q = or_empty (observations selectedForm (q_id q))"

definition tableRow :: "language \<Rightarrow> FormDataType \<Rightarrow> Question \<Rightarrow> string list" where
  "tableRow lang selectedForm q =
     [promptCell lang selectedForm q, answerCell lang selectedForm q,
      observationCell selectedForm q]"

definition tableData :: "Question list \<Rightarrow> language \<Rightarrow> FormDataType \<Rightarrow> string list list" where
  "tableData questions lang selectedForm = map (tableRow lang selectedForm) questions"

subsection \<open>Editing a saved form (\<^verbatim>\<open>SavedForms\<close>)\<close>

record saved_forms_state =
  selectedFormIndex :: "nat option"
  editedAnswers :: "int \<rightharpoonup> int"
  editedObservations :: "int \<rightharpoonup> string"
  isEditing :: bool

datatype js_error = TypeError

definition handleSelectForm ::
  "FormDataType list \<Rightarrow> saved_forms_state \<Rightarrow> nat \<Rightarrow> js_error option \<times> saved_forms_state" where
  \<comment> \<open>\<^verbatim>\<open>setSelectedFormIndex(index)\<close> has run when \<^verbatim>\<open>formData[index].answers\<close>
      throws for an undefined \<^verbatim>\<open>formData[index]\<close>\<close>
  "handleSelectForm forms cs index =
     (if index < length forms
      then (None, \<lparr>selectedFormIndex = Some index,
                   editedAnswers = answers (forms ! index),
                   editedObservations = observations (forms ! index),
                   isEditing = False\<rparr>)
      else (Some TypeError, cs\<lparr>selectedFormIndex := Some index\<rparr>))"

definition handleAnswerChange :: "saved_forms_state \<Rightarrow> int \<Rightarrow> int \<Rightarrow> saved_forms_state" where
  "handleAnswerChange cs questionId v = cs\<lparr>editedAnswers := (editedAnswers cs)(questionId \<mapsto> v)\<rparr>"

definition handleObservationChange :: "saved_forms_state \<Rightarrow> int \<Rightarrow> string \<Rightarrow> saved_forms_state" where
  "handleObservationChange cs questionId v =
     cs\<lparr>editedObservations := (editedObservations cs)(questionId \<mapsto> v)\<rparr>"

text \<open>
  \<^verbatim>\<open>handleSaveChanges\<close> spreads the selected form and replaces its two maps, then
  hands the result to \<^verbatim>\<open>onUpdateForm\<close>, which is \<^verbatim>\<open>handleUpdateForm\<close> of \<^verbatim>\<open>App\<close>.
  Spreading \<^verbatim>\<open>undefined\<close> (an index past the end) gives an object with no
  \<^verbatim>\<open>date\<close>, which is strictly equal to the date of no stored form: the collection
  stays as it is.
\<close>

definition handleSaveChanges ::
  "app_state \<Rightarrow> saved_forms_state \<Rightarrow> app_state \<times> saved_forms_state" where
  "handleSaveChanges st cs =
     (case selectedFormIndex cs of
        None \<Rightarrow> (st, cs)
      | Some i \<Rightarrow>
          if i < length (formData st)
          then (handleUpdateForm st
                  ((formData st ! i)\<lparr>answers := editedAnswers cs,
                                     observations := editedObservations cs\<rparr>),
                cs\<lparr>isEditing := False\<rparr>)
          else (st, cs\<lparr>isEditing := False\<rparr>))"


section \<open>Notions the properties are stated with\<close>

subsection \<open>The category score of the specification\<close>

text \<open>
  The score as the specification words it: the sum, over the questions of the category,
  of the answer value (0 where the answer set has no entry for the question), divided by
  the number of those questions.
\<close>

definition spec_score :: "Question list \<Rightarrow> FormDataType \<Rightarrow> Category \<Rightarrow> real" where
  "spec_score Q S C =
     (\<Sum>q\<leftarrow>[q\<leftarrow>Q. categoryId q = cat_id C].
         (case answers S (q_id q) of None \<Rightarrow> 0 | Some v \<Rightarrow> real_of_int v))
     / real (length [q\<leftarrow>Q. categoryId q = cat_id C])"

definition option_values_in_range :: "Question list \<Rightarrow> bool" where
  "option_values_in_range Q =
     list_all (\<lambda>q. list_all (\<lambda>opt. 0 \<le> opt_value opt \<and> opt_value opt \<le> 100) (options q)) Q"

text \<open>
  The data model's answer set maps a question id to the value of the option selected
  for that question.
\<close>

definition answers_are_options :: "Question list \<Rightarrow> FormDataType \<Rightarrow> bool" where
  "answers_are_options Q S =
     list_all (\<lambda>q. case answers S (q_id q) of
                     None \<Rightarrow> True
                   | Some v \<Rightarrow> v \<in> set (map opt_value (options q))) Q"

text \<open>
  No addition of the sum rounds: every answer value of the category is a double, and
  so is every partial sum, in the order of the question list. This is so in particular
  where the magnitudes of the values add up to less than \<open>2\<^sup>5\<^sup>3\<close>.
\<close>

fun sums_exact :: "int \<Rightarrow> int list \<Rightarrow> bool" where
  "sums_exact a [] = True"
| "sums_exact a (v # vs) =
     (js_number v = Finite (of_int v)
      \<and> round_double (of_int (a + v)) = Finite (of_int (a + v))
      \<and> sums_exact (a + v) vs)"

definition exact_sum :: "Question list \<Rightarrow> FormDataType \<Rightarrow> Category \<Rightarrow> bool" where
  "exact_sum Q S C =
     sums_exact 0
       (map (\<lambda>q. case answers S (q_id q) of None \<Rightarrow> 0 | Some v \<Rightarrow> v)
          [q\<leftarrow>Q. categoryId q = cat_id C])"

definition in_percent_range :: "jsnum \<Rightarrow> bool" where
  "in_percent_range x = (case x of Finite r \<Rightarrow> 0 \<le> r \<and> r \<le> 100 | _ \<Rightarrow> False)"

subsection \<open>What the user can see of a delivery\<close>

text \<open>
  The views are rendered from the state of \<^verbatim>\<open>App\<close>. A notice on the screen is
  therefore a difference in that state: after the handler, the state is not simply the
  old one with the submission added.
\<close>

definition visible_reaction :: "app_state \<Rightarrow> FormDataType \<Rightarrow> app_state \<Rightarrow> bool" where
  "visible_reaction st data st' = (st' \<noteq> st\<lparr>formData := formData st @ [data]\<rparr>)"


section \<open>Example data\<close>

definition scale :: "AnswerOption list" where
  "scale = [\<lparr>opt_value = 0, opt_text = \<lparr>es = ''No'', pt = ''Nao''\<rparr>\<rparr>,
            \<lparr>opt_value = 40, opt_text = \<lparr>es = ''Parcial'', pt = ''Parcial''\<rparr>\<rparr>,
            \<lparr>opt_value = 80, opt_text = \<lparr>es = ''Casi'', pt = ''Quase''\<rparr>\<rparr>,
            \<lparr>opt_value = 100, opt_text = \<lparr>es = ''Si'', pt = ''Sim''\<rparr>\<rparr>]"

definition question1 :: Question where
  "question1 = \<lparr>q_id = 1, categoryId = 1,
     q_text = \<lparr>es = ''Tiene {providerName} un plan acordado con {financialEntityName}?'',
               pt = ''{providerName} tem um plano acordado com {financialEntityName}?''\<rparr>,
     options = scale\<rparr>"

definition question2 :: Question where
  "question2 = \<lparr>q_id = 2, categoryId = 1,
     q_text = \<lparr>es = ''Informa {providerName} de los incidentes de {providerName}?'',
               pt = ''{providerName} informa os incidentes de {providerName}?''\<rparr>,
     options = scale\<rparr>"

definition question3 :: Question where
  "question3 = \<lparr>q_id = 3, categoryId = 1,
     q_text = \<lparr>es = ''Revisa {financialEntityName} el plan cada ano?'',
               pt = ''{financialEntityName} revisa o plano todos os anos?''\<rparr>,
     options = scale\<rparr>"

definition governance :: Category where
  "governance = \<lparr>cat_id = 1, cat_name = \<lparr>es = ''Gobernanza'', pt = ''Governanca''\<rparr>\<rparr>"

definition resilience :: Category where
  "resilience = \<lparr>cat_id = 2, cat_name = \<lparr>es = ''Resiliencia'', pt = ''Resiliencia''\<rparr>\<rparr>"

definition form_a :: FormDataType where
  "form_a = \<lparr>providerName = ''Acme'', financialEntityName = ''Banco Uno'', userName = ''ana'',
             date = ''2024-05-01T10:00:00.000Z'',
             answers = [1 \<mapsto> 80, 2 \<mapsto> 40], observations = [1 \<mapsto> ''ok'']\<rparr>"

definition form_a2 :: FormDataType where
  "form_a2 = \<lparr>providerName = ''Borealis'', financialEntityName = ''Banco Dos'', userName = ''rui'',
             date = ''2024-05-01T10:00:00.000Z'',
             answers = [1 \<mapsto> 20], observations = Map.empty\<rparr>"

definition form_b :: FormDataType where
  "form_b = \<lparr>providerName = ''Cobalt'', financialEntityName = ''Banco Tres'', userName = ''eva'',
             date = ''2024-06-02T09:30:00.000Z'',
             answers = [1 \<mapsto> 80], observations = Map.empty\<rparr>"

definition form_100 :: FormDataType where
  "form_100 = \<lparr>providerName = ''Acme'', financialEntityName = ''Banco Uno'', userName = ''ana'',
             date = ''2024-08-04T11:00:00.000Z'',
             answers = [1 \<mapsto> 100], observations = Map.empty\<rparr>"

definition form_500 :: FormDataType where
  "form_500 = \<lparr>providerName = ''Acme'', financialEntityName = ''Banco Uno'', userName = ''ana'',
             date = ''2024-08-05T11:00:00.000Z'',
             answers = [1 \<mapsto> 500], observations = Map.empty\<rparr>"

definition form_big :: FormDataType where
  "form_big = \<lparr>providerName = ''Acme'', financialEntityName = ''Banco Uno'', userName = ''ana'',
             date = ''2024-08-06T11:00:00.000Z'',
             answers = [1 \<mapsto> 9007199254740992, 2 \<mapsto> 1, 3 \<mapsto> 1],
             observations = Map.empty\<rparr>"

definition form_new :: FormDataType where
  "form_new = \<lparr>providerName = ''Delta'', financialEntityName = ''Banco Cuatro'', userName = ''leo'',
             date = ''2024-07-03T08:00:00.000Z'',
             answers = [2 \<mapsto> 60], observations = Map.empty\<rparr>"

definition store_dup :: app_state where
  "store_dup = initial_state\<lparr>currentView := FormView, formData := [form_a, form_b, form_a2]\<rparr>"

definition edit_session :: saved_forms_state where
  "edit_session =
     handleObservationChange
       (handleAnswerChange
          \<lparr>selectedFormIndex = Some 3, editedAnswers = answers form_new,
           editedObservations = observations form_new, isEditing = True\<rparr>
          2 100)
       2 ''revisado''"

definition post_down :: "request \<Rightarrow> net_error + unit" where
  "post_down r = Inl (NetworkError ''Network Error'')"

definition post_upload_down :: "request \<Rightarrow> net_error + unit" where
  "post_upload_down r =
     (case r of SendMessage c t \<Rightarrow> Inr () | SendDocument c d n \<Rightarrow> Inl (NetworkError ''timeout''))"


section \<open>The submission store\<close>

lemma formData_update:
  "formData (handleUpdateForm st s) =
     map (\<lambda>form. if date form = date s then s else form) (formData st)"
  by (simp add: handleUpdateForm_def)

lemma formData_delete:
  "formData (handleDeleteForm st k) = filter (\<lambda>form. date form \<noteq> k) (formData st)"
  by (simp add: handleDeleteForm_def)

lemma map_replace_absent:
  "\<forall>f \<in> set xs. date f \<noteq> k \<Longrightarrow> map (\<lambda>form. if date form = k then s else form) xs = xs"
  by (induction xs) auto

lemma filter_absent:
  "\<forall>f \<in> set xs. date f \<noteq> k \<Longrightarrow> filter (\<lambda>form. date form \<noteq> k) xs = xs"
  by (induction xs) auto

text \<open>
  Claim C3. Where no stored submission carries the creation timestamp of \<open>s\<close>, updating
  with \<open>s\<close> returns the state it was given; where none carries the timestamp \<open>k\<close>,
  deleting \<open>k\<close> returns the state it was given. Neither handler has an error result.
  Deleting the same key a second time changes nothing, whatever the store holds.
\<close>

theorem unknown_key_is_noop:
  "((\<forall>f \<in> set (formData st). date f \<noteq> date s) \<longrightarrow> handleUpdateForm st s = st)
   \<and> ((\<forall>f \<in> set (formData st). date f \<noteq> k) \<longrightarrow> handleDeleteForm st k = st)
   \<and> handleDeleteForm (handleDeleteForm st k) k = handleDeleteForm st k"
proof (intro conjI impI)
  assume absent: "\<forall>f \<in> set (formData st). date f \<noteq> date s"
  show "handleUpdateForm st s = st"
    using map_replace_absent [OF absent, of s] by (simp add: handleUpdateForm_def)
next
  assume absent: "\<forall>f \<in> set (formData st). date f \<noteq> k"
  show "handleDeleteForm st k = st"
    using filter_absent [OF absent] by (simp add: handleDeleteForm_def)
next
  show "handleDeleteForm (handleDeleteForm st k) k = handleDeleteForm st k"
    by (simp add: handleDeleteForm_def)
qed

theorem unknown_key_is_noop_witness:
  "list_all (\<lambda>f. date f \<noteq> date form_new) (formData store_dup)
   \<and> handleUpdateForm store_dup form_new = store_dup
   \<and> handleDeleteForm store_dup (date form_new) = store_dup
   \<and> handleDeleteForm (handleDeleteForm store_dup (date form_new)) (date form_new)
       = handleDeleteForm store_dup (date form_new)"
proof -
  have absent: "\<forall>f \<in> set (formData store_dup). date f \<noteq> date form_new"
    by (simp add: store_dup_def form_a_def form_a2_def form_b_def form_new_def)
  show ?thesis
    using absent unknown_key_is_noop [of store_dup form_new "date form_new"]
    by (simp add: list_all_iff)
qed

text \<open>
  Claim C4. Updating with the same submission twice gives the state that updating once
  gives.
\<close>

theorem updateSubmission_idempotent:
  "handleUpdateForm (handleUpdateForm st s) s = handleUpdateForm st s"
  by (simp add: handleUpdateForm_def)

text \<open>
  Claim C8. After the form-submit handler the collection is the old collection followed
  by the new submission, whatever the endpoint answers: the stored submissions keep
  their places and their order, and the new one is last.
\<close>

theorem addSubmission_appends:
  "formData (fst (handleFormSubmit post toLocaleDateString st s)) = formData st @ [s]"
  by (simp add: handleFormSubmit_def Let_def split: sum.splits)

text \<open>
  Claim C9. Nothing keeps two stored submissions from sharing a creation timestamp.
  An update keeps the length of the collection and puts the new submission at every
  position whose submission has its timestamp, leaving the other positions alone; a
  delete keeps exactly the submissions with another timestamp, so that none with the
  deleted timestamp is left.
\<close>

theorem duplicate_keys_all_replaced_all_removed:
  "length (formData (handleUpdateForm st s)) = length (formData st)
   \<and> (\<forall>i < length (formData st).
        formData (handleUpdateForm st s) ! i
          = (if date (formData st ! i) = date s then s else formData st ! i))
   \<and> set (formData (handleDeleteForm st k)) = {f \<in> set (formData st). date f \<noteq> k}
   \<and> (\<forall>f \<in> set (formData (handleDeleteForm st k)). date f \<noteq> k)"
  by (simp add: formData_update formData_delete)

theorem duplicate_keys_witness:
  "date form_a2 = date form_a
   \<and> formData (handleUpdateForm store_dup (form_a\<lparr>answers := Map.empty\<rparr>))
       = [form_a\<lparr>answers := Map.empty\<rparr>, form_b, form_a\<lparr>answers := Map.empty\<rparr>]
   \<and> formData (handleDeleteForm store_dup (date form_a)) = [form_b]"
proof -
  have same: "date form_a2 = date form_a" by (simp add: form_a_def form_a2_def)
  have other: "date form_b \<noteq> date form_a" by (simp add: form_a_def form_b_def)
  show ?thesis
    using duplicate_keys_all_replaced_all_removed
      [of store_dup "form_a\<lparr>answers := Map.empty\<rparr>" "date form_a"] same other
    by (simp add: store_dup_def formData_update formData_delete)
qed


section \<open>Rounding to doubles\<close>

lemma pow2_pos: "0 < pow2 e"
  by (simp add: pow2_def)

lemma round_half_even_of_int: "round_half_even (of_int i) = i"
  by (simp add: round_half_even_def)

lemma round_half_even_le:
  assumes "x \<le> of_int K"
  shows "round_half_even x \<le> K"
proof (cases "x = of_int K")
  case True
  then show ?thesis by (simp add: round_half_even_of_int)
next
  case False
  with assms have "x < of_int K" by simp
  then have "\<lfloor>x\<rfloor> < K" by (simp add: floor_less_iff)
  then show ?thesis by (simp add: round_half_even_def Let_def)
qed

lemma round_half_even_nonneg: "0 \<le> x \<Longrightarrow> 0 \<le> round_half_even x"
  by (simp add: round_half_even_def Let_def)

lemma binade_le:
  assumes "0 < x" "x < 2 ^ Suc k"
  shows "binade x \<le> int k"
proof (cases "1 \<le> x")
  case True
  have "\<lfloor>x\<rfloor> < 2 ^ Suc k"
    using assms(2) by (simp add: floor_less_iff)
  then have "0 \<le> int (Suc k) \<and> \<lfloor>x\<rfloor> < 2 ^ nat (int (Suc k))"
    by (simp only: nat_int) simp
  then have "bitlen \<lfloor>x\<rfloor> \<le> int (Suc k)"
    by (simp only: bitlen_le_iff_power)
  with True show ?thesis by (simp add: binade_def)
next
  case False
  then show ?thesis
    using bitlen_nonneg [of "\<lceil>1 / x\<rceil> - 1"] by (simp add: binade_def)
qed

text \<open>The exponent that \<open>binade\<close> computes is the one of the binade \<open>x\<close> lies in.\<close>

lemma binade_bounds:
  assumes "0 < x"
  shows "pow2 (binade x) \<le> x \<and> x < pow2 (binade x + 1)"
proof (cases "1 \<le> x")
  case True
  let ?m = "\<lfloor>x\<rfloor>"
  from True have m: "0 < ?m" by simp
  then have b: "1 \<le> bitlen ?m" by (simp add: bitlen_alt_def)
  from bitlen_bounds [OF m]
  have lo: "2 ^ nat (bitlen ?m - 1) \<le> ?m" and hi: "?m < 2 ^ nat (bitlen ?m)" by simp_all
  have "(2::real) ^ nat (bitlen ?m - 1) \<le> of_int ?m"
    using lo by (metis of_int_le_iff of_int_numeral of_int_power)
  also have "\<dots> \<le> x" by simp
  finally have l: "2 ^ nat (bitlen ?m - 1) \<le> x" .
  have "?m + 1 \<le> 2 ^ nat (bitlen ?m)" using hi by simp
  then have "of_int (?m + 1) \<le> (2::real) ^ nat (bitlen ?m)"
    by (metis of_int_le_iff of_int_numeral of_int_power)
  moreover have "x < of_int (?m + 1)" by linarith
  ultimately have h: "x < 2 ^ nat (bitlen ?m)" by linarith
  from True b l h show ?thesis by (simp add: binade_def pow2_def)
next
  case False
  let ?y = "1 / x" and ?c = "\<lceil>1 / x\<rceil>"
  from False assms have y: "1 < ?y" by simp
  then have c: "2 \<le> ?c" by linarith
  then have c1: "0 < ?c - 1" by simp
  then have b: "1 \<le> bitlen (?c - 1)" by (simp add: bitlen_alt_def)
  from bitlen_bounds [OF c1]
  have lo: "2 ^ nat (bitlen (?c - 1) - 1) \<le> ?c - 1" and hi: "?c - 1 < 2 ^ nat (bitlen (?c - 1))"
    by simp_all
  have "?y \<le> of_int ?c" by simp
  also have "?c \<le> 2 ^ nat (bitlen (?c - 1))" using hi by simp
  then have "of_int ?c \<le> (2::real) ^ nat (bitlen (?c - 1))"
    by (metis of_int_le_iff of_int_numeral of_int_power)
  finally have yh: "?y \<le> 2 ^ nat (bitlen (?c - 1))" .
  have "(2::real) ^ nat (bitlen (?c - 1) - 1) \<le> of_int (?c - 1)"
    using lo by (metis of_int_le_iff of_int_numeral of_int_power)
  also have "\<dots> < ?y" by linarith
  finally have yl: "2 ^ nat (bitlen (?c - 1) - 1) < ?y" .
  have l: "1 / 2 ^ nat (bitlen (?c - 1)) \<le> x"
    using yh assms by (simp add: field_simps)
  have h: "x < 1 / 2 ^ nat (bitlen (?c - 1) - 1)"
    using yl assms by (simp add: field_simps)
  show ?thesis
  proof (cases "bitlen (?c - 1) = 1")
    case True
    with l h False show ?thesis by (simp add: binade_def pow2_def)
  next
    case ne: False
    with b have "1 < bitlen (?c - 1)" by simp
    moreover then have "nat (bitlen (?c - 1) - 1) = nat (- (1 - bitlen (?c - 1)))" by simp
    ultimately show ?thesis
      using l h False by (simp add: binade_def pow2_def)
  qed
qed

lemma quantum_le_0: "0 < x \<Longrightarrow> x < 2 ^ 53 \<Longrightarrow> quantum x \<le> 0"
  using binade_le [of x 52] by (simp add: quantum_def)

lemma round_magnitude_exact:
  assumes "quantum a \<le> 0" "a * 2 ^ nat (- quantum a) = of_int j"
  shows "round_magnitude a = a"
proof -
  have p: "pow2 (quantum a) = 1 / 2 ^ nat (- quantum a)"
    using assms(1) by (cases "quantum a = 0") (simp_all add: pow2_def)
  have "a / pow2 (quantum a) = of_int j"
    using assms(2) by (simp add: p)
  then have "round_magnitude a = of_int j * pow2 (quantum a)"
    by (simp add: round_magnitude_def round_half_even_of_int)
  also have "\<dots> = a"
    unfolding p assms(2) [symmetric] by simp
  finally show ?thesis .
qed

lemma round_magnitude_int:
  assumes "0 < i" "i < 2 ^ 53"
  shows "round_magnitude (of_int i) = of_int i"
proof -
  have "real_of_int i < 2 ^ 53"
    using assms(2) by (metis of_int_less_iff of_int_numeral of_int_power)
  then have q: "quantum (of_int i) \<le> 0"
    using assms(1) by (intro quantum_le_0) simp_all
  show ?thesis
    by (rule round_magnitude_exact [OF q, of "i * 2 ^ nat (- quantum (real_of_int i))"]) simp
qed

text \<open>An integer below \<open>2\<^sup>5\<^sup>3\<close> in magnitude is its own double.\<close>

lemma round_double_int:
  assumes "\<bar>i\<bar> < 2 ^ 53"
  shows "round_double (of_int i) = Finite (of_int i)"
proof (cases "i = 0")
  case True
  then show ?thesis by (simp add: round_double_def)
next
  case False
  with assms have pos: "0 < \<bar>i\<bar>" by simp
  have m: "round_magnitude \<bar>real_of_int i\<bar> = of_int \<bar>i\<bar>"
    using round_magnitude_int [OF pos assms] by simp
  have "real_of_int \<bar>i\<bar> < 2 ^ 53"
    using assms by (metis of_int_less_iff of_int_numeral of_int_power)
  also have "\<dots> < (2::real) ^ 1024" by (rule power_strict_increasing) simp_all
  finally have small: "\<not> 2 ^ 1024 \<le> real_of_int \<bar>i\<bar>" by simp
  show ?thesis
    using False small unfolding round_double_def m by (cases "0 < i") simp_all
qed

lemma round_magnitude_percent:
  assumes "0 < x" "x \<le> 100"
  shows "0 \<le> round_magnitude x \<and> round_magnitude x \<le> 100"
proof -
  have "x < 2 ^ Suc 6" using assms(2) by simp
  from binade_le [OF assms(1) this] have q: "quantum x \<le> - 46"
    by (simp add: quantum_def)
  define k where "k = nat (- quantum x)"
  have p: "pow2 (quantum x) = 1 / 2 ^ k"
    using q by (simp add: pow2_def k_def)
  have "x * 2 ^ k \<le> 100 * 2 ^ k" using assms(2) by simp
  also have "(100::real) * 2 ^ k = of_int (100 * 2 ^ k)" by simp
  finally have "round_half_even (x * 2 ^ k) \<le> 100 * 2 ^ k"
    by (rule round_half_even_le)
  then have "real_of_int (round_half_even (x * 2 ^ k)) \<le> of_int (100 * 2 ^ k)"
    by (simp only: of_int_le_iff)
  then have up: "real_of_int (round_half_even (x * 2 ^ k)) / 2 ^ k \<le> 100"
    by (simp add: pos_divide_le_eq)
  have "0 \<le> round_half_even (x * 2 ^ k)"
    using assms(1) by (intro round_half_even_nonneg) simp
  then have lo: "0 \<le> real_of_int (round_half_even (x * 2 ^ k)) / 2 ^ k" by simp
  show ?thesis
    using lo up by (simp add: round_magnitude_def p)
qed

text \<open>Rounding keeps a value between 0 and 100 there: both bounds are doubles.\<close>

lemma round_double_percent:
  assumes "0 \<le> x" "x \<le> 100"
  shows "\<exists>r. round_double x = Finite r \<and> 0 \<le> r \<and> r \<le> 100"
proof (cases "x = 0")
  case True
  then show ?thesis by (simp add: round_double_def)
next
  case False
  with assms have pos: "0 < x" by simp
  from round_magnitude_percent [OF pos assms(2)]
  have m: "0 \<le> round_magnitude x" "round_magnitude x \<le> 100" by simp_all
  have "(100::real) < 2 ^ 1024"
  proof -
    have "(100::real) < 2 ^ 7" by simp
    also have "\<dots> < (2::real) ^ 1024" by (rule power_strict_increasing) simp_all
    finally show ?thesis .
  qed
  with m(2) have "\<not> 2 ^ 1024 \<le> round_magnitude x" by linarith
  with pos m show ?thesis by (simp add: round_double_def)
qed

text \<open>
  Values of \<open>round_double\<close>: \<^verbatim>\<open>100 / 3\<close> is \<^verbatim>\<open>33.333333333333336\<close>,
  \<^verbatim>\<open>2 ** 53 + 1\<close> is \<^verbatim>\<open>2 ** 53\<close> (a tie, to the even neighbour), and
  \<^verbatim>\<open>1 / 10\<close> is \<^verbatim>\<open>0.1000000000000000055511151231257827\<close>.
\<close>

lemma bitlen_examples:
  "bitlen 33 = 6" "bitlen 9007199254740993 = 54" "bitlen 9 = 4"
  "bitlen 9007199254740992 = 54" "bitlen 3002399751580330 = 52" "bitlen 3002399751580331 = 52"
  by code_simp+

lemma quantum_examples:
  "quantum (100 / 3) = - 47" "quantum 9007199254740993 = 1" "quantum (1 / 10) = - 56"
  "quantum 9007199254740992 = 1" "quantum (9007199254740992 / 3) = - 1"
  "quantum (9007199254740994 / 3) = - 1"
  by (simp_all add: quantum_def binade_def bitlen_examples)

lemma round_magnitude_examples:
  "round_magnitude (100 / 3) = 4691249611844267 / 2 ^ 47"
  "round_magnitude 9007199254740993 = 9007199254740992"
  "round_magnitude (1 / 10) = 3602879701896397 / 2 ^ 55"
  "round_magnitude 9007199254740992 = 9007199254740992"
  "round_magnitude (9007199254740992 / 3) = 6004799503160661 / 2"
  "round_magnitude (9007199254740994 / 3) = 6004799503160663 / 2"
  by (simp_all add: round_magnitude_def quantum_examples pow2_def round_half_even_def Let_def)

lemma round_double_examples:
  "round_double (100 / 3) = Finite (4691249611844267 / 2 ^ 47)"
  "round_double 9007199254740993 = Finite 9007199254740992"
  "round_double (1 / 10) = Finite (3602879701896397 / 2 ^ 55)"
  "round_double 9007199254740992 = Finite 9007199254740992"
  "round_double (9007199254740992 / 3) = Finite (6004799503160661 / 2)"
  "round_double (9007199254740994 / 3) = Finite (6004799503160663 / 2)"
  by (simp_all add: round_double_def round_magnitude_examples)


section \<open>The score aggregator\<close>

lemma or_zero_case: "or_zero v = (case v of None \<Rightarrow> 0 | Some x \<Rightarrow> x)"
  by (simp add: or_zero_def split: option.splits)

lemma js_number_exact: "\<bar>v\<bar> < 2 ^ 53 \<Longrightarrow> js_number v = Finite (of_int v)"
  by (simp add: js_number_def round_double_int)

lemma sums_exact_small:
  "\<bar>a\<bar> + (\<Sum>v\<leftarrow>vs. \<bar>v\<bar>) < 2 ^ 53 \<Longrightarrow> sums_exact a vs"
proof (induction vs arbitrary: a)
  case Nil
  then show ?case by simp
next
  case (Cons v vs)
  have nonneg: "0 \<le> (\<Sum>v\<leftarrow>vs. \<bar>v\<bar>)" by (rule sum_list_nonneg) auto
  with Cons.prems have v: "\<bar>v\<bar> < 2 ^ 53" and av: "\<bar>a + v\<bar> < 2 ^ 53"
    and rest: "\<bar>a + v\<bar> + (\<Sum>v\<leftarrow>vs. \<bar>v\<bar>) < 2 ^ 53" by simp_all
  show ?case
    using js_number_exact [OF v] round_double_int [OF av] Cons.IH [OF rest] by simp
qed

lemma foldl_js_add_exact:
  "sums_exact a vs \<Longrightarrow>
     foldl (\<lambda>sum score. js_add sum (js_number score)) (Finite (of_int a)) vs
       = Finite (of_int (a + sum_list vs))"
proof (induction vs arbitrary: a)
  case Nil
  then show ?case by simp
next
  case (Cons v vs)
  then have v: "js_number v = Finite (of_int v)"
    and av: "round_double (of_int (a + v)) = Finite (of_int (a + v))"
    and rest: "sums_exact (a + v) vs" by simp_all
  have step: "js_add (Finite (of_int a)) (js_number v) = Finite (of_int (a + v))"
    using av by (simp add: v)
  show ?case
    using Cons.IH [OF rest] by (simp add: step add.assoc)
qed

lemma or_zero_values:
  "map (\<lambda>q. or_zero (m (q_id q))) qs
     = map (\<lambda>q. case m (q_id q) of None \<Rightarrow> 0 | Some v \<Rightarrow> v) qs"
  by (simp add: or_zero_case)

lemma real_sum_list_or_zero:
  "real_of_int (sum_list (map (\<lambda>q. or_zero (m (q_id q))) qs))
     = (\<Sum>q\<leftarrow>qs. (case m (q_id q) of None \<Rightarrow> 0 | Some v \<Rightarrow> real_of_int v))"
  by (induction qs) (simp_all add: or_zero_case split: option.splits)

lemma exact_sum_small:
  assumes "(\<Sum>q\<leftarrow>[q\<leftarrow>Q. categoryId q = cat_id C].
              (case answers S (q_id q) of None \<Rightarrow> 0 | Some v \<Rightarrow> \<bar>v\<bar>)) < 2 ^ 53"
  shows "exact_sum Q S C"
proof -
  have "(\<Sum>v\<leftarrow>map (\<lambda>q. case m (q_id q) of None \<Rightarrow> 0 | Some v \<Rightarrow> v) qs. \<bar>v\<bar>)
          = (\<Sum>q\<leftarrow>qs. (case m (q_id q) of None \<Rightarrow> 0 | Some v \<Rightarrow> \<bar>v\<bar>))"
    for m :: "int \<rightharpoonup> int" and qs :: "Question list"
    by (induction qs) (simp_all split: option.splits)
  with assms show ?thesis
    unfolding exact_sum_def by (intro sums_exact_small) simp
qed

lemma categoryScore_exact_sum:
  assumes "0 < length [q\<leftarrow>Q. categoryId q = cat_id C]" and "exact_sum Q S C"
  shows "categoryScore Q S C = round_double (spec_score Q S C)"
proof -
  let ?qs = "[q\<leftarrow>Q. categoryId q = cat_id C]"
  let ?vs = "map (\<lambda>q. or_zero (answers S (q_id q))) ?qs"
  have "sums_exact 0 ?vs"
    using assms(2) by (simp only: exact_sum_def or_zero_values)
  from foldl_js_add_exact [OF this]
  have sum: "foldl (\<lambda>sum score. js_add sum (js_number score)) (Finite 0) ?vs
               = Finite (of_int (sum_list ?vs))" by simp
  have "categoryScore Q S C = round_double (real_of_int (sum_list ?vs) / real (length ?qs))"
    using assms(1) by (simp add: categoryScore_def Let_def sum js_div_def)
  then show ?thesis
    by (simp add: spec_score_def real_sum_list_or_zero)
qed

lemma sum_list_bounds:
  "\<forall>x \<in> set xs. 0 \<le> x \<and> x \<le> (100::int) \<Longrightarrow>
     0 \<le> sum_list xs \<and> sum_list xs \<le> 100 * int (length xs)"
  by (induction xs) auto

lemma selected_value_in_range:
  assumes "option_values_in_range Q" "answers_are_options Q S" "q \<in> set Q"
  shows "0 \<le> or_zero (answers S (q_id q)) \<and> or_zero (answers S (q_id q)) \<le> 100"
proof (cases "answers S (q_id q)")
  case None
  then show ?thesis by (simp add: or_zero_def)
next
  case (Some v)
  with assms(2,3) have "v \<in> set (map opt_value (options q))"
    by (auto simp: answers_are_options_def list_all_iff)
  then obtain opt where "opt \<in> set (options q)" "v = opt_value opt" by auto
  with assms(1,3) have "0 \<le> v \<and> v \<le> 100"
    by (auto simp: option_values_in_range_def list_all_iff)
  with Some show ?thesis by (simp add: or_zero_def)
qed

lemma mean_in_range:
  fixes s :: int and n :: nat
  assumes "0 < n" "0 \<le> s" "s \<le> 100 * int n"
  shows "0 \<le> real_of_int s / real n \<and> real_of_int s / real n \<le> 100"
proof -
  have "real_of_int s \<le> 100 * real n"
    using assms(3) by (metis of_int_le_iff of_int_mult of_int_numeral of_int_of_nat_eq)
  with assms(1,2) show ?thesis by (simp add: pos_divide_le_eq)
qed

lemma spec_score_in_range:
  assumes "0 < length [q\<leftarrow>Q. categoryId q = cat_id C]"
    and "option_values_in_range Q" "answers_are_options Q S"
  shows "0 \<le> spec_score Q S C \<and> spec_score Q S C \<le> 100"
proof -
  let ?qs = "[q\<leftarrow>Q. categoryId q = cat_id C]"
  let ?vs = "map (\<lambda>q. or_zero (answers S (q_id q))) ?qs"
  have "\<forall>x \<in> set ?vs. 0 \<le> x \<and> x \<le> 100"
    using assms(2,3) selected_value_in_range [of Q S] by auto
  then have "0 \<le> sum_list ?vs \<and> sum_list ?vs \<le> 100 * int (length ?vs)"
    by (rule sum_list_bounds)
  then have "0 \<le> real_of_int (sum_list ?vs) / real (length ?qs)
             \<and> real_of_int (sum_list ?vs) / real (length ?qs) \<le> 100"
    using mean_in_range [of "length ?qs" "sum_list ?vs"] assms(1) by simp
  then show ?thesis
    by (simp add: spec_score_def real_sum_list_or_zero)
qed

lemma selected_values_exact:
  assumes "option_values_in_range Q" "answers_are_options Q S" "length Q < 2 ^ 32"
  shows "exact_sum Q S C"
proof (rule exact_sum_small)
  let ?qs = "[q\<leftarrow>Q. categoryId q = cat_id C]"
  let ?f = "\<lambda>q. case answers S (q_id q) of None \<Rightarrow> 0 | Some v \<Rightarrow> \<bar>v\<bar>"
  have "0 \<le> ?f q \<and> ?f q \<le> 100" if "q \<in> set Q" for q
    using selected_value_in_range [OF assms(1,2) that]
    by (cases "answers S (q_id q)") (simp_all add: or_zero_case)
  then have each: "\<forall>x \<in> set (map ?f ?qs). 0 \<le> x \<and> x \<le> 100"
    by auto
  have "sum_list (map ?f ?qs) \<le> 100 * int (length (map ?f ?qs))"
    using sum_list_bounds [OF each] by simp
  also have "\<dots> \<le> 100 * int (length Q)" by simp
  also have "\<dots> < 100 * 2 ^ 32" using assms(3) by simp
  also have "\<dots> < (2::int) ^ 53" by simp
  finally show "sum_list (map ?f ?qs) < 2 ^ 53" .
qed

text \<open>
  Claim C1, as amended. For a category with at least one question in the question list:
  where no addition of the sum rounds, the score computed for the chart is the double
  nearest to \<open>spec_score\<close>, the sum of the answer values of the category's questions (0
  for a question the answer set has no entry for) divided by the number of those
  questions. Where every option value of every question lies between 0 and 100, the
  answer set holds selected option values and the question list is an array (fewer
  than \<open>2\<^sup>3\<^sup>2\<close> elements), the score lies between 0 and 100.
\<close>

theorem category_score_is_rounded_mean:
  assumes "0 < length [q\<leftarrow>Q. categoryId q = cat_id C]"
  shows "(exact_sum Q S C \<longrightarrow> categoryScore Q S C = round_double (spec_score Q S C))
         \<and> (option_values_in_range Q \<and> answers_are_options Q S \<and> length Q < 2 ^ 32
              \<longrightarrow> in_percent_range (categoryScore Q S C))"
proof (intro conjI impI)
  assume "exact_sum Q S C"
  then show "categoryScore Q S C = round_double (spec_score Q S C)"
    by (rule categoryScore_exact_sum [OF assms])
next
  assume wf: "option_values_in_range Q \<and> answers_are_options Q S \<and> length Q < 2 ^ 32"
  then have "exact_sum Q S C" by (intro selected_values_exact) simp_all
  then have eq: "categoryScore Q S C = round_double (spec_score Q S C)"
    by (rule categoryScore_exact_sum [OF assms])
  have "0 \<le> spec_score Q S C \<and> spec_score Q S C \<le> 100"
    using spec_score_in_range [OF assms] wf by blast
  then obtain r where "round_double (spec_score Q S C) = Finite r" "0 \<le> r" "r \<le> 100"
    using round_double_percent by blast
  then show "in_percent_range (categoryScore Q S C)"
    by (simp add: eq in_percent_range_def)
qed

theorem category_score_is_rounded_mean_witness:
  "0 < length [q\<leftarrow>[question1, question2]. categoryId q = cat_id governance]
   \<and> exact_sum [question1, question2] form_a governance
   \<and> exact_sum [question1, question2] form_b governance
   \<and> exact_sum [question1, question2, question3] form_100 governance
   \<and> option_values_in_range [question1, question2]
   \<and> answers_are_options [question1, question2] form_a
   \<and> length [question1, question2] < 2 ^ 32
   \<and> categoryScore [question1, question2] form_a governance = Finite 60
   \<and> categoryScore [question1, question2] form_b governance = Finite 40
   \<and> categoryScore [question1, question2, question3] form_100 governance
       = Finite (4691249611844267 / 2 ^ 47)
   \<and> in_percent_range (categoryScore [question1, question2] form_a governance)"
proof -
  have n: "0 < length [q\<leftarrow>[question1, question2]. categoryId q = cat_id governance]"
    by (simp add: question1_def question2_def governance_def)
  have n3: "0 < length [q\<leftarrow>[question1, question2, question3]. categoryId q = cat_id governance]"
    by (simp add: question1_def question2_def question3_def governance_def)
  have xa: "exact_sum [question1, question2] form_a governance"
    by (rule exact_sum_small)
      (simp add: question1_def question2_def governance_def form_a_def)
  have xb: "exact_sum [question1, question2] form_b governance"
    by (rule exact_sum_small)
      (simp add: question1_def question2_def governance_def form_b_def)
  have xc: "exact_sum [question1, question2, question3] form_100 governance"
    by (rule exact_sum_small)
      (simp add: question1_def question2_def question3_def governance_def form_100_def)
  have r: "option_values_in_range [question1, question2]"
    by (simp add: option_values_in_range_def question1_def question2_def scale_def)
  have a: "answers_are_options [question1, question2] form_a"
    by (simp add: answers_are_options_def question1_def question2_def scale_def form_a_def)
  have l: "length [question1, question2] < 2 ^ 32" by simp
  have sa: "spec_score [question1, question2] form_a governance = 60"
    by (simp add: spec_score_def question1_def question2_def governance_def form_a_def)
  have sb: "spec_score [question1, question2] form_b governance = 40"
    by (simp add: spec_score_def question1_def question2_def governance_def form_b_def)
  have sc: "spec_score [question1, question2, question3] form_100 governance = 100 / 3"
    by (simp add: spec_score_def question1_def question2_def question3_def governance_def
        form_100_def)
  have d60: "round_double 60 = Finite 60" using round_double_int [of 60] by simp
  have d40: "round_double 40 = Finite 40" using round_double_int [of 40] by simp
  note ta = category_score_is_rounded_mean [OF n, of form_a]
  note tb = category_score_is_rounded_mean [OF n, of form_b]
  note tc = category_score_is_rounded_mean [OF n3, of form_100]
  have ea: "categoryScore [question1, question2] form_a governance = Finite 60"
    using ta xa sa d60 by simp
  have eb: "categoryScore [question1, question2] form_b governance = Finite 40"
    using tb xb sb d40 by simp
  have ec: "categoryScore [question1, question2, question3] form_100 governance
              = Finite (4691249611844267 / 2 ^ 47)"
    using tc xc sc round_double_examples(1) by simp
  have ra: "in_percent_range (categoryScore [question1, question2] form_a governance)"
    using ta r a l by blast
  show ?thesis
    using n xa xb xc r a l ea eb ec ra by blast
qed

text \<open>
  The claim as stated fails. The quotient is a double: for three questions and the one
  answer 100 the score is \<^verbatim>\<open>33.333333333333336\<close>, not a third of 100. The answer
  set need not hold option values: with every option value between 0 and 100 and the
  answer 500 the score is 250. And the sum is made of doubles: after the answer
  \<open>2\<^sup>5\<^sup>3\<close> the two answers 1 are lost, and the score is not even the double nearest
  to the mean.
\<close>

theorem category_score_not_exact_mean:
  "spec_score [question1, question2, question3] form_100 governance = 100 / 3
   \<and> categoryScore [question1, question2, question3] form_100 governance
       = Finite (4691249611844267 / 2 ^ 47)
   \<and> categoryScore [question1, question2, question3] form_100 governance
       \<noteq> Finite (spec_score [question1, question2, question3] form_100 governance)
   \<and> option_values_in_range [question1, question2]
   \<and> categoryScore [question1, question2] form_500 governance = Finite 250
   \<and> \<not> in_percent_range (categoryScore [question1, question2] form_500 governance)
   \<and> categoryScore [question1, question2, question3] form_big governance
       = Finite (6004799503160661 / 2)
   \<and> round_double (spec_score [question1, question2, question3] form_big governance)
       = Finite (6004799503160663 / 2)"
proof -
  have n: "0 < length [q\<leftarrow>[question1, question2]. categoryId q = cat_id governance]"
    by (simp add: question1_def question2_def governance_def)
  have n3: "0 < length [q\<leftarrow>[question1, question2, question3]. categoryId q = cat_id governance]"
    by (simp add: question1_def question2_def question3_def governance_def)
  have xc: "exact_sum [question1, question2, question3] form_100 governance"
    by (rule exact_sum_small)
      (simp add: question1_def question2_def question3_def governance_def form_100_def)
  have xd: "exact_sum [question1, question2] form_500 governance"
    by (rule exact_sum_small)
      (simp add: question1_def question2_def governance_def form_500_def)
  have r: "option_values_in_range [question1, question2]"
    by (simp add: option_values_in_range_def question1_def question2_def scale_def)
  have sc: "spec_score [question1, question2, question3] form_100 governance = 100 / 3"
    by (simp add: spec_score_def question1_def question2_def question3_def governance_def
        form_100_def)
  have sd: "spec_score [question1, question2] form_500 governance = 250"
    by (simp add: spec_score_def question1_def question2_def governance_def form_500_def)
  have d250: "round_double 250 = Finite 250" using round_double_int [of 250] by simp
  have ec: "categoryScore [question1, question2, question3] form_100 governance
              = Finite (4691249611844267 / 2 ^ 47)"
    using categoryScore_exact_sum [OF n3 xc] sc round_double_examples(1) by simp
  have ed: "categoryScore [question1, question2] form_500 governance = Finite 250"
    using categoryScore_exact_sum [OF n xd] sd d250 by simp
  have ne: "categoryScore [question1, question2, question3] form_100 governance
              \<noteq> Finite (spec_score [question1, question2, question3] form_100 governance)"
    unfolding ec sc by simp
  have out: "\<not> in_percent_range (categoryScore [question1, question2] form_500 governance)"
    unfolding ed by (simp add: in_percent_range_def)
  have d1: "round_double 1 = Finite 1" using round_double_int [of 1] by simp
  have big: "categoryScore [question1, question2, question3] form_big governance
               = Finite (6004799503160661 / 2)"
    by (simp add: categoryScore_def js_div_def js_number_def or_zero_def d1
        round_double_examples question1_def question2_def question3_def governance_def
        form_big_def)
  have sbig: "spec_score [question1, question2, question3] form_big governance
                = 9007199254740994 / 3"
    by (simp add: spec_score_def question1_def question2_def question3_def governance_def
        form_big_def)
  have rbig: "round_double (spec_score [question1, question2, question3] form_big governance)
                = Finite (6004799503160663 / 2)"
    unfolding sbig by (rule round_double_examples)
  show ?thesis
    using sc ec ne r ed out big rbig by blast
qed

text \<open>
  Claim C7. For a category that no question of the list belongs to, the sum and the
  count are both 0 and the quotient is \<^verbatim>\<open>NaN\<close>: nothing precedes the division, so
  every such category reaches it.
\<close>

theorem empty_category_score_is_NaN:
  "[q\<leftarrow>Q. categoryId q = cat_id C] = [] \<Longrightarrow> categoryScore Q S C = NaN"
  by (simp add: categoryScore_def js_div_def)

theorem empty_category_score_is_NaN_witness:
  "[q\<leftarrow>[question1, question2]. categoryId q = cat_id resilience] = []
   \<and> categoryScore [question1, question2] form_a resilience = NaN
   \<and> scores (generateChartData [question1, question2] [governance, resilience] ES form_a)
       = [Finite 60, NaN]"
proof -
  have e: "[q\<leftarrow>[question1, question2]. categoryId q = cat_id resilience] = []"
    by (simp add: question1_def question2_def resilience_def)
  have n: "0 < length [q\<leftarrow>[question1, question2]. categoryId q = cat_id governance]"
    by (simp add: question1_def question2_def governance_def)
  have xa: "exact_sum [question1, question2] form_a governance"
    by (rule exact_sum_small)
      (simp add: question1_def question2_def governance_def form_a_def)
  have sa: "spec_score [question1, question2] form_a governance = 60"
    by (simp add: spec_score_def question1_def question2_def governance_def form_a_def)
  have d60: "round_double 60 = Finite 60" using round_double_int [of 60] by simp
  have g: "categoryScore [question1, question2] form_a governance = Finite 60"
    using categoryScore_exact_sum [OF n xa] sa d60 by simp
  show ?thesis
    using e g empty_category_score_is_NaN [OF e, of form_a]
    by (simp add: generateChartData_def)
qed


section \<open>The rows of the exported table\<close>

subsection \<open>Replacing in strings\<close>

lemma includes_str_sublist: "includes_str s pat = sublist pat s"
  unfolding includes_str_def
  by (induction s) (auto simp: sublist_Cons_right)

text \<open>
  Claim C6. The claim: the prompt cell of a row is the prompt with both placeholder
  tokens replaced by the names of the submission, and neither token is left in it. The
  code calls \<^verbatim>\<open>replace\<close> with a string pattern, which replaces the first occurrence
  only and reads the name as a replacement template. At a prompt that names the
  provider twice the second token stays in the cell; at the provider name \<^verbatim>\<open>$&\<close>
  the token itself is put back.
\<close>

theorem promptCell_token_remains:
  "promptCell ES form_a question2 = ''Informa Acme de los incidentes de {providerName}?''
   \<and> includes_str (promptCell ES form_a question2) PROVIDER_TOKEN
   \<and> promptCell ES (form_a\<lparr>providerName := ''$&''\<rparr>) question1
       = ''Tiene {providerName} un plan acordado con Banco Uno?''"
  by (simp add: promptCell_def js_replace_def includes_str_def question1_def question2_def
      form_a_def localize_def PROVIDER_TOKEN_def ENTITY_TOKEN_def)


subsection \<open>Answer and observation cells\<close>

lemma answerCell_no_match:
  "\<forall>opt \<in> set (options q). Some (opt_value opt) \<noteq> answers f (q_id q) \<Longrightarrow>
     answerCell lang f q = []"
  by (simp add: answerCell_def or_empty_def find_None_iff [THEN iffD2])

text \<open>
  Claim C10. A row is built for every question and every submission, with no error
  result: the table has one row of three cells per question. The answer cell is empty
  where the submission has no answer for the question and where the recorded value is
  the value of none of the question's options; the observation cell is empty where the
  submission has no observation for the question.
\<close>

theorem table_row_missing_entries:
  "(answers f (q_id q) = None \<longrightarrow> answerCell lang f q = [])
   \<and> ((\<forall>opt \<in> set (options q). Some (opt_value opt) \<noteq> answers f (q_id q))
        \<longrightarrow> answerCell lang f q = [])
   \<and> (observations f (q_id q) = None \<longrightarrow> observationCell f q = [])
   \<and> tableRow lang f q = [promptCell lang f q, answerCell lang f q, observationCell f q]
   \<and> length (tableData Q lang f) = length Q
   \<and> (\<forall>row \<in> set (tableData Q lang f). length row = 3)"
proof (intro conjI impI)
  assume "answers f (q_id q) = None"
  then show "answerCell lang f q = []"
    by (intro answerCell_no_match) simp
next
  assume "\<forall>opt \<in> set (options q). Some (opt_value opt) \<noteq> answers f (q_id q)"
  then show "answerCell lang f q = []"
    by (rule answerCell_no_match)
next
  assume "observations f (q_id q) = None"
  then show "observationCell f q = []"
    by (simp add: observationCell_def or_empty_def)
next
  show "tableRow lang f q = [promptCell lang f q, answerCell lang f q, observationCell f q]"
    by (simp add: tableRow_def)
next
  show "length (tableData Q lang f) = length Q"
    by (simp add: tableData_def)
next
  show "\<forall>row \<in> set (tableData Q lang f). length row = 3"
    by (auto simp: tableData_def tableRow_def)
qed

theorem table_row_missing_entries_witness:
  "answers form_b (q_id question2) = None
   \<and> answerCell ES form_b question2 = []
   \<and> answers form_a2 (q_id question1) = Some 20
   \<and> list_all (\<lambda>opt. opt_value opt \<noteq> 20) (options question1)
   \<and> answerCell ES form_a2 question1 = []
   \<and> observations form_b (q_id question1) = None
   \<and> observationCell form_b question1 = []
   \<and> answerCell PT form_a question1 = ''Quase''
   \<and> length (tableData [question1, question2] ES form_b) = 2"
proof -
  have none: "answers form_b (q_id question2) = None"
    by (simp add: form_b_def question2_def)
  have twenty: "answers form_a2 (q_id question1) = Some 20"
    by (simp add: form_a2_def question1_def)
  have unmatched: "list_all (\<lambda>opt. opt_value opt \<noteq> 20) (options question1)"
    by (simp add: question1_def scale_def)
  then have unmatched':
    "\<forall>opt \<in> set (options question1). Some (opt_value opt) \<noteq> answers form_a2 (q_id question1)"
    by (simp add: twenty list_all_iff)
  have no_obs: "observations form_b (q_id question1) = None"
    by (simp add: form_b_def question1_def)
  have label: "answerCell PT form_a question1 = ''Quase''"
    by (simp add: answerCell_def or_empty_def localize_def form_a_def question1_def scale_def)
  note t1 = table_row_missing_entries [of form_b question2 ES "[question1, question2]"]
  note t2 = table_row_missing_entries [of form_a2 question1 ES "[]"]
  note t3 = table_row_missing_entries [of form_b question1 ES "[]"]
  have c1: "answerCell ES form_b question2 = []" using t1 none by blast
  have c2: "answerCell ES form_a2 question1 = []" using t2 unmatched' by blast
  have c3: "observationCell form_b question1 = []" using t3 no_obs by blast
  have c4: "length (tableData [question1, question2] ES form_b) = 2" using t1 by simp
  show ?thesis
    using none twenty unmatched no_obs label c1 c2 c3 c4 by blast
qed


section \<open>Delivery and editing\<close>

lemma find_replaced:
  assumes "date u = k"
  shows "find (\<lambda>f. date f = k) (map (\<lambda>form. if date form = k then u else form) xs)
           = (if \<exists>x \<in> set xs. date x = k then Some u else None)"
  using assms by (induction xs) auto

text \<open>
  Claim C2, as amended. Where the delivery fails, with the text message or with the
  document upload, the handler still returns: the error is passed to
  \<^verbatim>\<open>console.error\<close>, and the state of \<^verbatim>\<open>App\<close> is the old state with the new
  submission added at the end and no other change. Whatever the endpoint answers, the
  collection contains the new submission.
\<close>

theorem delivery_failure_is_logged_only:
  assumes "deliver post toLocaleDateString data (generatePDF_app toLocaleDateString data)
             = Inl err"
  shows "handleFormSubmit post toLocaleDateString st data
           = (st\<lparr>formData := formData st @ [data]\<rparr>, [ErrorDelivery err])
         \<and> data \<in> set (formData (fst (handleFormSubmit post' toLocaleDateString st data)))"
  using assms by (simp add: handleFormSubmit_def Let_def split: sum.splits)

theorem delivery_failure_is_logged_only_witness:
  "deliver post_upload_down (\<lambda>d. d) form_new (generatePDF_app (\<lambda>d. d) form_new)
     = Inl (NetworkError ''timeout'')
   \<and> handleFormSubmit post_upload_down (\<lambda>d. d) store_dup form_new
       = (store_dup\<lparr>formData := [form_a, form_b, form_a2, form_new]\<rparr>,
          [ErrorDelivery (NetworkError ''timeout'')])
   \<and> form_new \<in> set (formData (fst (handleFormSubmit (\<lambda>r. Inr ()) (\<lambda>d. d) store_dup form_new)))"
proof -
  have failed: "deliver post_upload_down (\<lambda>d. d) form_new (generatePDF_app (\<lambda>d. d) form_new)
                  = Inl (NetworkError ''timeout'')"
    by (simp add: deliver_def post_upload_down_def)
  show ?thesis
    using failed delivery_failure_is_logged_only [OF failed, of store_dup "\<lambda>r. Inr ()"]
    by (simp add: store_dup_def)
qed

text \<open>
  The claim as stated fails: with the endpoint down, the handler leaves the state of
  \<^verbatim>\<open>App\<close> exactly as the added submission alone leaves it. The error went to the
  console; nothing the user sees tells of it.
\<close>

theorem failed_delivery_shows_no_notice:
  "deliver post_down (\<lambda>d. d) form_new (generatePDF_app (\<lambda>d. d) form_new)
     = Inl (NetworkError ''Network Error'')
   \<and> \<not> visible_reaction store_dup form_new
         (fst (handleFormSubmit post_down (\<lambda>d. d) store_dup form_new))
   \<and> snd (handleFormSubmit post_down (\<lambda>d. d) store_dup form_new)
       = [ErrorDelivery (NetworkError ''Network Error'')]"
  by (simp add: deliver_def post_down_def handleFormSubmit_def visible_reaction_def)

text \<open>
  Claim C5. A submission is added, selected in the saved-forms view (its index is the
  length of the collection before it was added) and saved with edited answer and
  observation sets. The submission stored at that index, which is also the one a search
  by its creation timestamp finds, then has exactly the edited sets, and the provider
  name, the financial-entity name, the user name and the creation timestamp of the
  submission that was added.
\<close>

theorem edit_roundtrip:
  assumes "selectedFormIndex cs = Some (length (formData st))"
    and "st1 = fst (handleFormSubmit post toLocaleDateString st s)"
    and "st2 = fst (handleSaveChanges st1 cs)"
    and "r = formData st2 ! length (formData st)"
  shows "r = s\<lparr>answers := editedAnswers cs, observations := editedObservations cs\<rparr>
         \<and> answers r = editedAnswers cs \<and> observations r = editedObservations cs
         \<and> providerName r = providerName s
         \<and> financialEntityName r = financialEntityName s
         \<and> userName r = userName s \<and> date r = date s
         \<and> find (\<lambda>f. date f = date s) (formData st2) = Some r"
proof -
  let ?u = "s\<lparr>answers := editedAnswers cs, observations := editedObservations cs\<rparr>"
  have added: "formData st1 = formData st @ [s]"
    unfolding assms(2) by (simp add: handleFormSubmit_def Let_def split: sum.splits)
  then have sel: "formData st1 ! length (formData st) = s" by simp
  have "st2 = handleUpdateForm st1 ?u"
    unfolding assms(3) using assms(1) added sel by (simp add: handleSaveChanges_def)
  then have stored: "formData st2
      = map (\<lambda>form. if date form = date s then ?u else form) (formData st @ [s])"
    using added by (simp add: handleUpdateForm_def)
  then have r: "r = ?u"
    unfolding assms(4) by (simp add: nth_append)
  have "find (\<lambda>f. date f = date s) (formData st2) = Some ?u"
    unfolding stored by (subst find_replaced) simp_all
  with r show ?thesis by simp
qed

theorem edit_roundtrip_witness:
  "selectedFormIndex edit_session = Some (length (formData store_dup))
   \<and> answers (formData (fst (handleSaveChanges
          (fst (handleFormSubmit post_down (\<lambda>d. d) store_dup form_new)) edit_session)) ! 3) 2
       = Some 100
   \<and> observations (formData (fst (handleSaveChanges
          (fst (handleFormSubmit post_down (\<lambda>d. d) store_dup form_new)) edit_session)) ! 3) 2
       = Some ''revisado''
   \<and> providerName (formData (fst (handleSaveChanges
          (fst (handleFormSubmit post_down (\<lambda>d. d) store_dup form_new)) edit_session)) ! 3)
       = ''Delta''
   \<and> date (formData (fst (handleSaveChanges
          (fst (handleFormSubmit post_down (\<lambda>d. d) store_dup form_new)) edit_session)) ! 3)
       = ''2024-07-03T08:00:00.000Z''"
proof -
  have sel: "selectedFormIndex edit_session = Some (length (formData store_dup))"
    by (simp add: edit_session_def handleObservationChange_def handleAnswerChange_def
        store_dup_def)
  have len: "length (formData store_dup) = 3"
    by (simp add: store_dup_def)
  have edits: "editedAnswers edit_session 2 = Some 100"
    "editedObservations edit_session 2 = Some ''revisado''"
    by (simp_all add: edit_session_def handleObservationChange_def handleAnswerChange_def)
  have orig: "providerName form_new = ''Delta''" "date form_new = ''2024-07-03T08:00:00.000Z''"
    by (simp_all add: form_new_def)
  note t = edit_roundtrip [OF sel refl refl refl, of post_down "\<lambda>d. d" form_new]
  show ?thesis
    using t sel edits orig unfolding len by simp
qed

end
